theory Spec2Isabelle
  imports Main "HOL-Library.Word"
begin

section \<open>sqlutils: rows, cells and typed getters\<close>

text \<open>
  A shallow embedding of \<^verbatim>\<open>sqlutils/sqlutils.go\<close>. Go values that can be
  \<^verbatim>\<open>nil\<close> are options, a Go \<^verbatim>\<open>error\<close> result is an \<open>error option\<close>
  (\<open>None\<close> is \<^verbatim>\<open>nil\<close>), and a run-time panic is a value of type \<open>panic\<close>.
\<close>

subsection \<open>Errors and panics\<close>

datatype panic = NilPointerDereference | IndexOutOfRange

text \<open>
  \<open>ErrNoRows\<close> is \<^verbatim>\<open>sql.ErrNoRows\<close>; \<open>Error msg\<close> is any other error value of a
  collaborator; \<open>Unexpected fn p\<close> is the error the deferred \<^verbatim>\<open>recover()\<close> of
  function \<open>fn\<close> builds from the panic \<open>p\<close>
  (\<^verbatim>\<open>"<fn> unexpected error: %+v"\<close>).
\<close>

datatype error = ErrNoRows | Error string | Unexpected string panic

subsection \<open>Cells, rows, result sets\<close>

text \<open>\<^verbatim>\<open>type CellData sql.NullString\<close>: the struct \<^verbatim>\<open>{String string; Valid bool}\<close>.\<close>

record NullString =
  String :: string
  Valid :: bool

type_synonym CellData = NullString

text \<open>The zero value of the struct, which \<^verbatim>\<open>make([]CellData, n)\<close> fills a slice with
  and which a map lookup of a missing key returns.\<close>

definition zero_CellData :: CellData where
  "zero_CellData = \<lparr>String = [], Valid = False\<rparr>"

type_synonym RowData = "CellData list"
type_synonym ResultData = "RowData list"
type_synonym RowMap = "string \<rightharpoonup> CellData"

record NamedResultData =
  Columns :: "string list"
  Data :: ResultData

definition EmptyResultData :: ResultData where
  "EmptyResultData = []"

text \<open>\<^verbatim>\<open>RowData.Args\<close>: the cells of a row as a slice of \<^verbatim>\<open>sql.NullString\<close>
  values, in order.\<close>

definition Args :: "RowData \<Rightarrow> NullString list" where
  "Args this = map (\<lambda>c. c) this"

subsection \<open>rowToMap\<close>

text \<open>
  \<^verbatim>\<open>for k, data_col := range row { m[columns[k]] = data_col }\<close>: the loop walks the row;
  \<^verbatim>\<open>columns[k]\<close> panics when \<open>k\<close> is not below \<^verbatim>\<open>len(columns)\<close>.
\<close>

fun rowToMap_loop :: "nat \<Rightarrow> CellData list \<Rightarrow> string list \<Rightarrow> RowMap \<Rightarrow> panic + RowMap" where
  "rowToMap_loop k [] columns m = Inr m"
| "rowToMap_loop k (data_col # row) columns m =
     (if k < length columns
      then rowToMap_loop (Suc k) row columns (m(columns ! k \<mapsto> data_col))
      else Inl IndexOutOfRange)"

definition rowToMap :: "CellData list \<Rightarrow> string list \<Rightarrow> panic + RowMap" where
  "rowToMap row columns = rowToMap_loop 0 row columns Map.empty"

subsection \<open>strconv on a 64-bit platform\<close>

text \<open>
  The getters call \<^verbatim>\<open>strconv.ParseUint(s, 10, 0)\<close> and \<^verbatim>\<open>strconv.Atoi(s)\<close>.
  Bit size 0 is the size of \<^verbatim>\<open>int\<close>, taken to be 64 here. Both return a value
  together with an error; the value returned with an error is 0 for a syntax error and
  the nearest bound for a range error.
\<close>

datatype NumError = ErrSyntax | ErrRange

type_synonym uint64 = "64 word"
type_synonym int64 = "64 word"

text \<open>The smallest number whose tenfold exceeds the largest \<^verbatim>\<open>uint64\<close>.\<close>

definition cutoff_u64 :: uint64 where
  "cutoff_u64 = 18446744073709551615 div 10 + 1"

definition maxVal_u64 :: uint64 where
  "maxVal_u64 = push_bit 64 1 - 1"

text \<open>
  The digit loop of \<^verbatim>\<open>ParseUint\<close> in base 10: a byte outside \<^verbatim>\<open>'0'..'9'\<close> is a
  syntax error (a letter is a digit of value 10 or more, refused in base 10; an
  underscore is only accepted in base 0); the overflow tests come before the next byte
  is looked at.
\<close>

fun ParseUint_loop :: "uint64 \<Rightarrow> string \<Rightarrow> uint64 \<times> NumError option" where
  "ParseUint_loop n [] = (n, None)"
| "ParseUint_loop n (c # s) =
     (if \<not> (48 \<le> (of_char c :: nat) \<and> (of_char c :: nat) \<le> 57) then (0, Some ErrSyntax)
      else if n \<ge> cutoff_u64 then (maxVal_u64, Some ErrRange)
      else if n * 10 + (of_char c - 48) < n * 10 \<or> n * 10 + (of_char c - 48) > maxVal_u64
        then (maxVal_u64, Some ErrRange)
      else ParseUint_loop (n * 10 + (of_char c - 48)) s)"

definition ParseUint :: "string \<Rightarrow> uint64 \<times> NumError option" where
  "ParseUint s = (if s = [] then (0, Some ErrSyntax) else ParseUint_loop 0 s)"

text \<open>\<^verbatim>\<open>ParseInt(s, 10, 0)\<close>: an optional sign, then \<^verbatim>\<open>ParseUint\<close> and the range test
  of a signed 64-bit value.\<close>

definition cutoff_i64 :: uint64 where
  "cutoff_i64 = push_bit 63 1"

definition ParseInt :: "string \<Rightarrow> int64 \<times> NumError option" where
  "ParseInt s =
     (if s = [] then (0, Some ErrSyntax)
      else
        let neg = (hd s = CHR ''-'');
            s' = (if hd s = CHR ''+'' \<or> hd s = CHR ''-'' then tl s else s);
            (un, err) = ParseUint s'
        in if err \<noteq> None \<and> err \<noteq> Some ErrRange then (0, err)
           else if \<not> neg \<and> un \<ge> cutoff_i64 then (cutoff_i64 - 1, Some ErrRange)
           else if neg \<and> un > cutoff_i64 then (- cutoff_i64, Some ErrRange)
           else (if neg then - un else un, None))"

text \<open>\<^verbatim>\<open>Atoi\<close> is \<^verbatim>\<open>ParseInt(s, 10, 0)\<close> converted to \<^verbatim>\<open>int\<close>; its fast path for
  short strings computes the same value and error.\<close>

definition Atoi :: "string \<Rightarrow> int64 \<times> NumError option" where
  "Atoi s = ParseInt s"

subsection \<open>Typed getters of a named row\<close>

text \<open>\<^verbatim>\<open>(*this)[key].String\<close>: a missing key reads as the zero cell.\<close>

definition GetString :: "RowMap \<Rightarrow> string \<Rightarrow> string" where
  "GetString this key = String (case this key of Some cell \<Rightarrow> cell | None \<Rightarrow> zero_CellData)"

definition GetUint :: "RowMap \<Rightarrow> string \<Rightarrow> uint64" where
  "GetUint this key = (let (res, _) = ParseUint (GetString this key) in res)"

definition GetUintD :: "RowMap \<Rightarrow> string \<Rightarrow> uint64 \<Rightarrow> uint64" where
  "GetUintD this key def =
     (let (res, err) = Atoi (GetString this key)
      in if err \<noteq> None then def else res)"

definition GetUint64 :: "RowMap \<Rightarrow> string \<Rightarrow> uint64" where
  "GetUint64 this key = (let (res, _) = ParseUint (GetString this key) in res)"

definition GetUint64D :: "RowMap \<Rightarrow> string \<Rightarrow> uint64 \<Rightarrow> uint64" where
  "GetUint64D this key def =
     (let (res, err) = ParseUint (GetString this key)
      in if err \<noteq> None then def else res)"

subsection \<open>JSON encoding of a cell\<close>

text \<open>
  \<^verbatim>\<open>encoding/json\<close> is modelled at the level of JSON documents: \<open>json_doc\<close> is what
  a byte slice denotes to \<^verbatim>\<open>json.Unmarshal\<close>, with \<open>JInvalid\<close> for bytes that are
  not a JSON document and \<open>JString t\<close> for a string literal that reads as the text \<open>t\<close>.
\<close>

datatype json_doc = JNull | JString string | JBool bool | JNumber int | JArray | JObject | JInvalid

datatype json_error = SyntaxError | UnmarshalTypeError

text \<open>The argument of \<^verbatim>\<open>json.Marshal\<close> in \<^verbatim>\<open>MarshalJSON\<close>: \<^verbatim>\<open>nil\<close> or a string.\<close>

datatype marshal_arg = GoNil | GoString string

text \<open>
  \<^verbatim>\<open>json.Marshal\<close> walks a string with \<^verbatim>\<open>utf8.DecodeRuneInString\<close>. The size of the
  encoding at the head of \<open>s\<close>, or \<open>None\<close> where the decoder reports
  \<^verbatim>\<open>RuneError\<close> with size 1: the first byte fixes the size (1 below \<^verbatim>\<open>0x80\<close>, 2 from
  \<^verbatim>\<open>0xC2\<close>, 3 from \<^verbatim>\<open>0xE0\<close>, 4 from \<^verbatim>\<open>0xF0\<close> to \<^verbatim>\<open>0xF4\<close>) and the range of
  the second byte; the other bytes lie in \<^verbatim>\<open>0x80..0xBF\<close>.
\<close>

definition utf8_DecodeRune_size :: "string \<Rightarrow> nat option" where
  "utf8_DecodeRune_size s =
     (case s of
        [] \<Rightarrow> None
      | s0 # rest \<Rightarrow>
          (let b = (of_char s0 :: nat) in
           if b < 128 then Some 1
           else if b < 194 \<or> 244 < b then None
           else
             (let sz = (if b < 224 then 2 else if b < 240 then 3 else (4::nat));
                  lo = (if b = 224 then 160 else if b = 240 then 144 else (128::nat));
                  hi = (if b = 237 then 159 else if b = 244 then 143 else (191::nat))
              in if length s < sz then None
                 else if (of_char (s ! 1) :: nat) < lo \<or> hi < (of_char (s ! 1) :: nat) then None
                 else if sz \<le> 2 then Some 2
                 else if (of_char (s ! 2) :: nat) < 128 \<or> 191 < (of_char (s ! 2) :: nat) then None
                 else if sz \<le> 3 then Some 3
                 else if (of_char (s ! 3) :: nat) < 128 \<or> 191 < (of_char (s ! 3) :: nat) then None
                 else Some 4)))"

text \<open>The UTF-8 encoding of U+FFFD, the bytes \<^verbatim>\<open>EF BF BD\<close>.\<close>

definition RuneError_utf8 :: string where
  "RuneError_utf8 = [char_of (239 :: nat), char_of (191 :: nat), char_of (189 :: nat)]"

text \<open>
  The text of the string literal \<^verbatim>\<open>json.Marshal\<close> writes for a Go string: a byte
  that starts no valid encoding is written as an escape that reads back as U+FFFD, every other character as
  itself or as an escape that reads back as itself. \<open>k\<close> counts the bytes still to copy
  of the encoding in hand.
\<close>

fun json_text_loop :: "nat \<Rightarrow> string \<Rightarrow> string" where
  "json_text_loop k [] = []"
| "json_text_loop k (c # s) =
     (if 0 < k then c # json_text_loop (k - 1) s
      else (case utf8_DecodeRune_size (c # s) of
              None \<Rightarrow> RuneError_utf8 @ json_text_loop 0 s
            | Some n \<Rightarrow> c # json_text_loop (n - 1) s))"

definition json_text :: "string \<Rightarrow> string" where
  "json_text s = json_text_loop 0 s"

fun json_Marshal :: "marshal_arg \<Rightarrow> json_doc \<times> json_error option" where
  "json_Marshal GoNil = (JNull, None)"
| "json_Marshal (GoString s) = (JString (json_text s), None)"

text \<open>
  \<^verbatim>\<open>json.Unmarshal(b, &s)\<close> for a string variable holding \<open>s\<close>: a string literal is
  stored; \<^verbatim>\<open>null\<close> has no effect on a string and is no error; any other document
  is an error and leaves \<open>s\<close> as it was.
\<close>

fun json_Unmarshal_string :: "json_doc \<Rightarrow> string \<Rightarrow> string \<times> json_error option" where
  "json_Unmarshal_string JNull s = (s, None)"
| "json_Unmarshal_string (JString t) s = (t, None)"
| "json_Unmarshal_string JInvalid s = (s, Some SyntaxError)"
| "json_Unmarshal_string _ s = (s, Some UnmarshalTypeError)"

definition MarshalJSON :: "CellData \<Rightarrow> json_doc \<times> json_error option" where
  "MarshalJSON this =
     (if Valid this then json_Marshal (GoString (String this)) else json_Marshal GoNil)"

text \<open>\<^verbatim>\<open>UnmarshalJSON\<close> writes through its receiver: the result is the cell afterwards
  and the error returned. \<^verbatim>\<open>var s string\<close> starts empty.\<close>

definition UnmarshalJSON :: "CellData \<Rightarrow> json_doc \<Rightarrow> CellData \<times> json_error option" where
  "UnmarshalJSON this b =
     (let (s, err) = json_Unmarshal_string b []
      in if err \<noteq> None then (this, err)
         else (this\<lparr>String := s, Valid := True\<rparr>, None))"

subsection \<open>The handle cache\<close>

text \<open>
  A \<^verbatim>\<open>*sql.DB\<close> is a pointer: \<open>db_id\<close> is its identity, and the record remembers what
  \<^verbatim>\<open>sql.Open\<close> was called with. The state is the global \<^verbatim>\<open>knownDBs\<close> and the list
  of all handles \<^verbatim>\<open>sql.Open\<close> has created, oldest first. Whether \<^verbatim>\<open>sql.Open\<close>
  fails for a driver name and a data source name is the parameter \<open>env\<close>.
  \<^verbatim>\<open>GetGenericDB\<close> holds \<^verbatim>\<open>knownDBsMutex\<close> from its first statement to its return, so
  calls from several goroutines take effect one after the other, as a list of calls.
\<close>

record sql_DB =
  db_id :: nat
  db_driverName :: string
  db_dataSourceName :: string

record dbs_state =
  knownDBs :: "string \<rightharpoonup> sql_DB"
  opened :: "sql_DB list"

definition init_dbs :: dbs_state where
  "init_dbs = \<lparr>knownDBs = Map.empty, opened = []\<rparr>"

definition sql_Open ::
  "(string \<Rightarrow> string \<Rightarrow> error option) \<Rightarrow> string \<Rightarrow> string \<Rightarrow> dbs_state
     \<Rightarrow> (sql_DB option \<times> error option) \<times> dbs_state" where
  "sql_Open env driverName dataSourceName st =
     (case env driverName dataSourceName of
        Some err \<Rightarrow> ((None, Some err), st)
      | None \<Rightarrow>
          (let db = \<lparr>db_id = length (opened st), db_driverName = driverName,
                     db_dataSourceName = dataSourceName\<rparr>
           in ((Some db, None), st\<lparr>opened := opened st @ [db]\<rparr>)))"

definition GetGenericDB ::
  "(string \<Rightarrow> string \<Rightarrow> error option) \<Rightarrow> string \<Rightarrow> string \<Rightarrow> dbs_state
     \<Rightarrow> (sql_DB option \<times> bool \<times> error option) \<times> dbs_state" where
  "GetGenericDB env driverName dataSourceName st =
     (let exists = (knownDBs st dataSourceName \<noteq> None)
      in if \<not> exists
         then (case sql_Open env driverName dataSourceName st of
                 ((db, None), st') \<Rightarrow>
                   (let st'' = st'\<lparr>knownDBs := (knownDBs st')(dataSourceName := db)\<rparr>
                    in ((knownDBs st'' dataSourceName, exists, None), st''))
               | ((db, Some err), st') \<Rightarrow> ((db, exists, Some err), st'))
         else ((knownDBs st dataSourceName, exists, None), st))"

definition GetDB ::
  "(string \<Rightarrow> string \<Rightarrow> error option) \<Rightarrow> string \<Rightarrow> dbs_state
     \<Rightarrow> (sql_DB option \<times> bool \<times> error option) \<times> dbs_state" where
  "GetDB env mysql_uri = GetGenericDB env ''mysql'' mysql_uri"

definition GetSQLiteDB ::
  "(string \<Rightarrow> string \<Rightarrow> error option) \<Rightarrow> string \<Rightarrow> dbs_state
     \<Rightarrow> (sql_DB option \<times> bool \<times> error option) \<times> dbs_state" where
  "GetSQLiteDB env dbFile = GetGenericDB env ''sqlite3'' dbFile"

text \<open>A list of calls, each a driver name and a data source name, run in order.\<close>

fun GetGenericDB_calls ::
  "(string \<Rightarrow> string \<Rightarrow> error option) \<Rightarrow> (string \<times> string) list \<Rightarrow> dbs_state \<Rightarrow> dbs_state" where
  "GetGenericDB_calls env [] st = st"
| "GetGenericDB_calls env ((driverName, dataSourceName) # calls) st =
     GetGenericDB_calls env calls (snd (GetGenericDB env driverName dataSourceName st))"

subsection \<open>The cursor\<close>

text \<open>
  A \<^verbatim>\<open>*sql.Rows\<close> may be \<^verbatim>\<open>nil\<close>, so it is an option. An open cursor answers
  \<^verbatim>\<open>Columns()\<close> with names and an error, and steps through its records: each
  \<^verbatim>\<open>Next()\<close> that returns true moves to the head of \<open>pending\<close>. A record holds the
  driver's values (\<open>None\<close> is SQL NULL, \<open>Some t\<close> a value that converts to the text
  \<open>t\<close>) and whether the cursor has been closed under it by the time \<^verbatim>\<open>Scan\<close> runs
  (a cancelled context does that). Calling a method of a nil \<^verbatim>\<open>*sql.Rows\<close> reads
  through the nil pointer and panics.
\<close>

record cursor_row =
  lastcols :: "string option list"
  closed :: bool

record Rows =
  Columns_result :: "string list \<times> error option"
  pending :: "cursor_row list"

definition Rows_Columns :: "Rows option \<Rightarrow> panic + (string list \<times> error option)" where
  "Rows_Columns rows =
     (case rows of None \<Rightarrow> Inl NilPointerDereference | Some r \<Rightarrow> Inr (Columns_result r))"

definition Rows_Close :: "Rows option \<Rightarrow> panic option" where
  "Rows_Close rows = (case rows of None \<Rightarrow> Some NilPointerDereference | Some r \<Rightarrow> None)"

text \<open>\<^verbatim>\<open>NullString.Scan\<close>: NULL gives the empty, invalid cell; a value gives a valid
  cell with its text.\<close>

fun NullString_Scan :: "string option \<Rightarrow> NullString" where
  "NullString_Scan None = \<lparr>String = [], Valid = False\<rparr>"
| "NullString_Scan (Some t) = \<lparr>String = t, Valid = True\<rparr>"

text \<open>
  \<^verbatim>\<open>rows.Scan(dest...)\<close> on the current record: it fails, before it writes to any
  destination, when the cursor is closed or when the number of destinations is not the
  number of values; otherwise it fills every destination.
\<close>

definition Rows_Scan :: "cursor_row \<Rightarrow> NullString list \<Rightarrow> NullString list \<times> error option" where
  "Rows_Scan r dest =
     (if closed r then (dest, Some (Error ''sql: Rows are closed''))
      else if length dest \<noteq> length (lastcols r)
        then (dest, Some (Error ''sql: wrong number of destination arguments in Scan''))
      else (map NullString_Scan (lastcols r), None))"

subsection \<open>Scanning\<close>

text \<open>\<^verbatim>\<open>RowToArray\<close>: a slice of \<^verbatim>\<open>len(columns)\<close> zero cells, handed to
  \<^verbatim>\<open>rows.Scan\<close>, whose error is dropped.\<close>

definition RowToArray :: "cursor_row \<Rightarrow> string list \<Rightarrow> CellData list" where
  "RowToArray r columns =
     (let data = replicate (length columns) zero_CellData;
          (data', _) = Rows_Scan r data
      in data')"

text \<open>
  A callback works on a state \<open>'s\<close> of its own (whatever the Go closure captures) and
  returns an error or \<^verbatim>\<open>nil\<close>. The callbacks this package builds itself can also
  panic, so the loop carries a panic out with the state reached.
\<close>

fun ScanRowsToArrays_loop ::
  "string list \<Rightarrow> cursor_row list \<Rightarrow> (CellData list \<Rightarrow> 's \<Rightarrow> 's \<times> (panic + error option))
     \<Rightarrow> 's \<Rightarrow> 's \<times> (panic + error option)" where
  "ScanRowsToArrays_loop columns [] on_row s = (s, Inr None)"
| "ScanRowsToArrays_loop columns (r # rs) on_row s =
     (case on_row (RowToArray r columns) s of
        (s', Inl p) \<Rightarrow> (s', Inl p)
      | (s', Inr (Some err)) \<Rightarrow> (s', Inr (Some err))
      | (s', Inr None) \<Rightarrow> ScanRowsToArrays_loop columns rs on_row s')"

definition ScanRowsToArrays ::
  "Rows option \<Rightarrow> (CellData list \<Rightarrow> 's \<Rightarrow> 's \<times> (panic + error option))
     \<Rightarrow> 's \<Rightarrow> 's \<times> (panic + error option)" where
  "ScanRowsToArrays rows on_row s =
     (case Rows_Columns rows of
        Inl p \<Rightarrow> (s, Inl p)
      | Inr (columns, _) \<Rightarrow> ScanRowsToArrays_loop columns (pending (the rows)) on_row s)"

definition ScanRowsToMaps ::
  "Rows option \<Rightarrow> (RowMap \<Rightarrow> 's \<Rightarrow> 's \<times> error option) \<Rightarrow> 's \<Rightarrow> 's \<times> (panic + error option)" where
  "ScanRowsToMaps rows on_row s =
     (case Rows_Columns rows of
        Inl p \<Rightarrow> (s, Inl p)
      | Inr (columns, _) \<Rightarrow>
          ScanRowsToArrays rows
            (\<lambda>arr s. case rowToMap arr columns of
                        Inl p \<Rightarrow> (s, Inl p)
                      | Inr m \<Rightarrow> (case on_row m s of (s', err) \<Rightarrow> (s', Inr err)))
            s)"

subsection \<open>The three query strategies\<close>

text \<open>
  What the handle answers to \<^verbatim>\<open>db.QueryContext(ctx, query, args...)\<close> is the parameter
  \<open>db\<close>: a cursor or nil, and an error or nil. \<^verbatim>\<open>log.Errore\<close> records the error and
  returns it; the errors a function has logged are part of its result.
\<close>

definition log_Errore :: "error \<Rightarrow> error list \<times> error" where
  "log_Errore err = ([err], err)"

text \<open>
  Streaming. The result is the callback's state, the errors logged and the error
  returned. \<^verbatim>\<open>rows.Close()\<close> is deferred only for a cursor that is not nil; a panic of
  the body is turned into an error by the deferred \<^verbatim>\<open>recover()\<close>.
\<close>

definition QueryRowsMapContext ::
  "(string \<Rightarrow> 'a list \<Rightarrow> Rows option \<times> error option) \<Rightarrow> string
     \<Rightarrow> (RowMap \<Rightarrow> 's \<Rightarrow> 's \<times> error option) \<Rightarrow> 'a list \<Rightarrow> 's \<Rightarrow> 's \<times> error list \<times> error option" where
  "QueryRowsMapContext db query on_row args s =
     (let (rows, err) = db query args;
          (s', logged, err', p) =
            (if err \<noteq> None \<and> err \<noteq> Some ErrNoRows
             then (let (l, e) = log_Errore (the err) in (s, l, Some e, None))
             else (case ScanRowsToMaps rows on_row s of
                     (s', Inl p) \<Rightarrow> (s', [], err, Some p)
                   | (s', Inr e) \<Rightarrow> (s', [], e, None)));
          p' = (if rows \<noteq> None
                then (case Rows_Close rows of Some q \<Rightarrow> Some q | None \<Rightarrow> p)
                else p)
      in case p' of
           Some derr \<Rightarrow> (s', logged, Some (Unexpected ''QueryRowsMapContext'' derr))
         | None \<Rightarrow> (s', logged, err'))"

text \<open>
  Bulk. The result is the named results \<^verbatim>\<open>resultData\<close>, \<^verbatim>\<open>columns\<close> and
  \<^verbatim>\<open>err\<close>. The body runs to a return or a panic; then the deferred \<^verbatim>\<open>rows.Close()\<close>
  runs, on whatever \<open>rows\<close> is, and a panic of it replaces one in flight; then the
  deferred \<^verbatim>\<open>recover()\<close> turns a panic into the error returned.
\<close>

definition queryResultDataContext ::
  "(string \<Rightarrow> 'a list \<Rightarrow> Rows option \<times> error option) \<Rightarrow> string \<Rightarrow> bool \<Rightarrow> 'a list
     \<Rightarrow> ResultData \<times> string list \<times> error option" where
  "queryResultDataContext db query retrieveColumns args =
     (let (rows, err) = db query args;
          (resultData, columns, err', p) =
            (if err \<noteq> None \<and> err \<noteq> Some ErrNoRows
             then (EmptyResultData, [], err, None)
             else (case (if retrieveColumns then Rows_Columns rows else Inr ([], None)) of
                     Inl p \<Rightarrow> ([], [], err, Some p)
                   | Inr (columns, _) \<Rightarrow>
                       (case ScanRowsToArrays rows
                               (\<lambda>rowData resultData. (resultData @ [rowData], Inr None)) [] of
                          (resultData, Inl p) \<Rightarrow> (resultData, columns, err, Some p)
                        | (resultData, Inr e) \<Rightarrow> (resultData, columns, e, None))));
          p' = (case Rows_Close rows of Some q \<Rightarrow> Some q | None \<Rightarrow> p)
      in case p' of
           Some derr \<Rightarrow> (resultData, columns, Some (Unexpected ''queryResultDataContext'' derr))
         | None \<Rightarrow> (resultData, columns, err'))"

definition QueryResultDataContext ::
  "(string \<Rightarrow> 'a list \<Rightarrow> Rows option \<times> error option) \<Rightarrow> string \<Rightarrow> 'a list
     \<Rightarrow> ResultData \<times> error option" where
  "QueryResultDataContext db query args =
     (let (resultData, _, err) = queryResultDataContext db query False args
      in (resultData, err))"

definition QueryNamedResultDataContext ::
  "(string \<Rightarrow> 'a list \<Rightarrow> Rows option \<times> error option) \<Rightarrow> string \<Rightarrow> 'a list
     \<Rightarrow> NamedResultData \<times> error option" where
  "QueryNamedResultDataContext db query args =
     (let (resultData, columns, err) = queryResultDataContext db query True args
      in (\<lparr>Columns = columns, Data = resultData\<rparr>, err))"

text \<open>
  Buffered. The loop over the buffered rows runs outside any \<^verbatim>\<open>recover()\<close>, so a
  panic of \<^verbatim>\<open>rowToMap\<close> would leave the function as a panic.
\<close>

fun QueryRowsMapBuffered_loop ::
  "string list \<Rightarrow> ResultData \<Rightarrow> (RowMap \<Rightarrow> 's \<Rightarrow> 's \<times> error option) \<Rightarrow> 's
     \<Rightarrow> 's \<times> (panic + error option)" where
  "QueryRowsMapBuffered_loop columns [] on_row s = (s, Inr None)"
| "QueryRowsMapBuffered_loop columns (row # resultData) on_row s =
     (case rowToMap row columns of
        Inl p \<Rightarrow> (s, Inl p)
      | Inr m \<Rightarrow>
          (case on_row m s of
             (s', Some err) \<Rightarrow> (s', Inr (Some err))
           | (s', None) \<Rightarrow> QueryRowsMapBuffered_loop columns resultData on_row s'))"

definition QueryRowsMapBufferedContext ::
  "(string \<Rightarrow> 'a list \<Rightarrow> Rows option \<times> error option) \<Rightarrow> string
     \<Rightarrow> (RowMap \<Rightarrow> 's \<Rightarrow> 's \<times> error option) \<Rightarrow> 'a list \<Rightarrow> 's \<Rightarrow> 's \<times> (panic + error option)" where
  "QueryRowsMapBufferedContext db query on_row args s =
     (let (resultData, columns, err) = queryResultDataContext db query True args
      in if err \<noteq> None then (s, Inr err)
         else QueryRowsMapBuffered_loop columns resultData on_row s)"

text \<open>The callback that records every named row it is given and never fails, and its
  positional counterpart.\<close>

definition record_RowMap :: "RowMap \<Rightarrow> RowMap list \<Rightarrow> RowMap list \<times> error option" where
  "record_RowMap m seen = (seen @ [m], None)"

definition record_RowData ::
  "CellData list \<Rightarrow> RowData list \<Rightarrow> RowData list \<times> (panic + error option)" where
  "record_RowData arr seen = (seen @ [arr], Inr None)"

subsection \<open>Prepared execution\<close>

text \<open>
  The world \<^verbatim>\<open>execInternalContext\<close> acts on: the prepared statements that are open
  (the head is the newest), how many have been prepared so far (the next one's
  identity), and what the logging collaborator has been given. The database's side is
  two parameters: whether \<^verbatim>\<open>db.PrepareContext\<close> fails on a query, and what
  \<^verbatim>\<open>stmt.ExecContext\<close> does with the arguments (a result and an error, or a panic).
\<close>

datatype sql_Result = Result int int

record exec_world =
  open_stmts :: "nat list"
  prepared :: nat
  logged :: "error list"

definition PrepareContext ::
  "(string \<Rightarrow> error option) \<Rightarrow> string \<Rightarrow> exec_world \<Rightarrow> (nat option \<times> error option) \<times> exec_world" where
  "PrepareContext prepare_fails query w =
     (case prepare_fails query of
        Some err \<Rightarrow> ((None, Some err), w)
      | None \<Rightarrow>
          ((Some (prepared w), None),
           w\<lparr>open_stmts := prepared w # open_stmts w, prepared := Suc (prepared w)\<rparr>))"

definition Stmt_Close :: "nat \<Rightarrow> exec_world \<Rightarrow> exec_world" where
  "Stmt_Close stmt w = w\<lparr>open_stmts := removeAll stmt (open_stmts w)\<rparr>"

definition execInternalContext ::
  "(string \<Rightarrow> error option) \<Rightarrow> (string \<Rightarrow> 'a list \<Rightarrow> panic + (sql_Result option \<times> error option))
     \<Rightarrow> bool \<Rightarrow> string \<Rightarrow> 'a list \<Rightarrow> exec_world
     \<Rightarrow> (sql_Result option \<times> error option) \<times> exec_world" where
  "execInternalContext prepare_fails stmt_exec silent query args w =
     (case PrepareContext prepare_fails query w of
        ((stmt, Some err), w1) \<Rightarrow> ((None, Some err), w1)
      | ((stmt, None), w1) \<Rightarrow>
          (let (res, err, p, w2) =
                 (case stmt_exec query args of
                    Inl p \<Rightarrow> (None, None, Some p, w1)
                  | Inr (res, err) \<Rightarrow>
                      (if err \<noteq> None \<and> \<not> silent
                       then (res, err, None, w1\<lparr>logged := logged w1 @ fst (log_Errore (the err))\<rparr>)
                       else (res, err, None, w1)));
               w3 = Stmt_Close (the stmt) w2
           in case p of
                Some derr \<Rightarrow> ((res, Some (Unexpected ''execInternal'' derr)), w3)
              | None \<Rightarrow> ((res, err), w3)))"

definition ExecContext ::
  "(string \<Rightarrow> error option) \<Rightarrow> (string \<Rightarrow> 'a list \<Rightarrow> panic + (sql_Result option \<times> error option))
     \<Rightarrow> string \<Rightarrow> 'a list \<Rightarrow> exec_world \<Rightarrow> (sql_Result option \<times> error option) \<times> exec_world" where
  "ExecContext prepare_fails stmt_exec query args w =
     execInternalContext prepare_fails stmt_exec False query args w"

definition ExecSilentlyContext ::
  "(string \<Rightarrow> error option) \<Rightarrow> (string \<Rightarrow> 'a list \<Rightarrow> panic + (sql_Result option \<times> error option))
     \<Rightarrow> string \<Rightarrow> 'a list \<Rightarrow> exec_world \<Rightarrow> (sql_Result option \<times> error option) \<times> exec_world" where
  "ExecSilentlyContext prepare_fails stmt_exec query args w =
     execInternalContext prepare_fails stmt_exec True query args w"

subsection \<open>Writing a table back\<close>

text \<open>
  \<^verbatim>\<open>WriteTableContext\<close> calls \<^verbatim>\<open>db.ExecContext\<close> directly. The database is the list
  of statements executed on it so far, each with its arguments; whether an execution
  fails is the parameter \<open>exec_fails\<close>, which sees that list, the query and the
  arguments.
\<close>

type_synonym statement = "string \<times> NullString list"

definition DB_ExecContext ::
  "(statement list \<Rightarrow> string \<Rightarrow> NullString list \<Rightarrow> error option) \<Rightarrow> statement list \<Rightarrow> string
     \<Rightarrow> NullString list \<Rightarrow> statement list \<times> error option" where
  "DB_ExecContext exec_fails db query args = (db @ [(query, args)], exec_fails db query args)"

text \<open>\<^verbatim>\<open>strings.Join(elems, sep)\<close>.\<close>

fun strings_Join :: "string list \<Rightarrow> string \<Rightarrow> string" where
  "strings_Join [] sep = []"
| "strings_Join [e] sep = e"
| "strings_Join (e # es) sep = e @ sep @ strings_Join es sep"

text \<open>The query \<^verbatim>\<open>fmt.Sprintf\<close> builds from the table name and the columns.\<close>

definition replace_into :: "string \<Rightarrow> string list \<Rightarrow> string" where
  "replace_into tableName columns =
     ''replace into '' @ tableName @ '' ('' @ strings_Join columns '','' @ '') values (''
       @ strings_Join (replicate (length columns) ''?'') '','' @ '')''"

fun WriteTable_loop ::
  "(statement list \<Rightarrow> string \<Rightarrow> NullString list \<Rightarrow> error option) \<Rightarrow> string \<Rightarrow> ResultData
     \<Rightarrow> statement list \<Rightarrow> error option \<Rightarrow> statement list \<times> error option" where
  "WriteTable_loop exec_fails query [] db err = (db, err)"
| "WriteTable_loop exec_fails query (rowData # rest) db err =
     (case DB_ExecContext exec_fails db query (Args rowData) of
        (db', Some execErr) \<Rightarrow> WriteTable_loop exec_fails query rest db' (Some execErr)
      | (db', None) \<Rightarrow> WriteTable_loop exec_fails query rest db' err)"

definition WriteTableContext ::
  "(statement list \<Rightarrow> string \<Rightarrow> NullString list \<Rightarrow> error option) \<Rightarrow> statement list \<Rightarrow> string
     \<Rightarrow> NamedResultData \<Rightarrow> statement list \<times> error option" where
  "WriteTableContext exec_fails db tableName data =
     (if length (Data data) = 0 then (db, None)
      else if length (Columns data) = 0 then (db, None)
      else WriteTable_loop exec_fails (replace_into tableName (Columns data)) (Data data) db None)"

text \<open>The error of the last execution that failed, if any, given the outcome of each
  execution in order.\<close>

fun last_failure :: "error option list \<Rightarrow> error option" where
  "last_failure [] = None"
| "last_failure (e # es) = (case last_failure es of Some e' \<Rightarrow> Some e' | None \<Rightarrow> e)"

text \<open>The outcome of each execution when the statements \<open>stmts\<close> are executed in order on
  the database \<open>db\<close>.\<close>

fun outcomes ::
  "(statement list \<Rightarrow> string \<Rightarrow> NullString list \<Rightarrow> error option) \<Rightarrow> statement list
     \<Rightarrow> statement list \<Rightarrow> error option list" where
  "outcomes exec_fails db [] = []"
| "outcomes exec_fails db ((query, args) # stmts) =
     exec_fails db query args # outcomes exec_fails (db @ [(query, args)]) stmts"

subsection \<open>The invariant of the handle cache\<close>

text \<open>
  What every state reached from the empty cache satisfies: the handles opened so far have
  pairwise different data source names, each of them is the cache's entry for its name,
  and every entry of the cache is one of them, stored under its own name.
\<close>

definition dbs_inv :: "dbs_state \<Rightarrow> bool" where
  "dbs_inv st \<longleftrightarrow>
     distinct (map db_dataSourceName (opened st))
     \<and> (\<forall>db \<in> set (opened st). knownDBs st (db_dataSourceName db) = Some db)
     \<and> (\<forall>dsn db. knownDBs st dsn = Some db \<longrightarrow> db \<in> set (opened st) \<and> db_dataSourceName db = dsn)"

section \<open>Properties\<close>

subsection \<open>JSON round trip of a cell\<close>

lemma json_text_loop_ascii:
  "\<forall>c \<in> set s. (of_char c :: nat) < 128 \<Longrightarrow> json_text_loop 0 s = s"
  by (induction s) (simp_all add: utf8_DecodeRune_size_def)

lemma json_text_ascii:
  "\<forall>c \<in> set s. (of_char c :: nat) < 128 \<Longrightarrow> json_text s = s"
  by (simp add: json_text_def json_text_loop_ascii)

lemma json_text_invalid_byte:
  "json_text [char_of (255 :: nat), CHR ''a''] = RuneError_utf8 @ ''a''"
  by (simp add: json_text_def utf8_DecodeRune_size_def)

text \<open>A present cell whose text \<^verbatim>\<open>json.Marshal\<close> writes unchanged, as it does all
  ASCII text, decodes to itself.\<close>

lemma UnmarshalJSON_MarshalJSON_valid:
  "Valid c \<Longrightarrow> json_text (String c) = String c \<Longrightarrow>
   UnmarshalJSON this (fst (MarshalJSON c)) = (c, None)"
  by (simp add: MarshalJSON_def UnmarshalJSON_def)

lemma UnmarshalJSON_always_valid:
  "UnmarshalJSON this b = (c, None) \<Longrightarrow> Valid c"
  by (auto simp: UnmarshalJSON_def split: prod.splits if_splits)

text \<open>
  Claim C1: decoding the JSON encoding of a cell gives the cell back, for a present and
  for an absent cell. The code at the absent cell: \<^verbatim>\<open>MarshalJSON\<close> writes
  \<^verbatim>\<open>null\<close>, and \<^verbatim>\<open>UnmarshalJSON\<close> of that \<^verbatim>\<open>null\<close> into a fresh cell returns no
  error and leaves a present cell with empty text, which is not the cell encoded.
\<close>

theorem UnmarshalJSON_null_is_present:
  "MarshalJSON \<lparr>String = [], Valid = False\<rparr> = (JNull, None)
   \<and> UnmarshalJSON zero_CellData (fst (MarshalJSON \<lparr>String = [], Valid = False\<rparr>))
       = (\<lparr>String = [], Valid = True\<rparr>, None)
   \<and> fst (UnmarshalJSON zero_CellData (fst (MarshalJSON \<lparr>String = [], Valid = False\<rparr>)))
       \<noteq> \<lparr>String = [], Valid = False\<rparr>"
  by (simp add: MarshalJSON_def UnmarshalJSON_def zero_CellData_def)

subsection \<open>Pairing a row with column names\<close>

lemma rowToMap_loop_upds:
  "k + length row \<le> length columns \<Longrightarrow>
   rowToMap_loop k row columns m = Inr (m ++ map_of (rev (zip (drop k columns) row)))"
proof (induction row arbitrary: k m)
  case Nil
  then show ?case by simp
next
  case (Cons c row)
  then have k: "k < length columns" by simp
  have d: "drop k columns = columns ! k # drop (Suc k) columns"
    using k by (simp add: Cons_nth_drop_Suc)
  have "rowToMap_loop (Suc k) row columns (m(columns ! k \<mapsto> c))
        = Inr (m(columns ! k \<mapsto> c) ++ map_of (rev (zip (drop (Suc k) columns) row)))"
    using Cons.prems by (intro Cons.IH) simp
  then show ?case using k by (simp add: d map_of_append)
qed

lemma rowToMap_map_of:
  "length row \<le> length columns \<Longrightarrow> rowToMap row columns = Inr (map_of (rev (zip columns row)))"
  by (simp add: rowToMap_def rowToMap_loop_upds)

lemma map_of_rev_distinct:
  "distinct (map fst xs) \<Longrightarrow> map_of (rev xs) = map_of xs"
  by (rule map_of_inject_set [THEN iffD2]) (simp_all add: distinct_rev rev_map [symmetric])

text \<open>
  Claim C6, as stated: for every row of \<open>N\<close> cells and every sequence of \<open>N\<close> column
  names, \<^verbatim>\<open>rowToMap\<close> gives a map with exactly \<open>N\<close> keys whose \<open>i\<close>-th name holds the
  \<open>i\<close>-th cell. With the name \<^verbatim>\<open>id\<close> twice, the map of a row of two cells has one key,
  and it holds the second cell, not the first.
\<close>

theorem rowToMap_duplicate_column_counterexample:
  "rowToMap [\<lparr>String = ''1'', Valid = True\<rparr>, \<lparr>String = ''2'', Valid = True\<rparr>] [''id'', ''id'']
     = Inr [''id'' \<mapsto> \<lparr>String = ''2'', Valid = True\<rparr>]
   \<and> card (dom [''id'' \<mapsto> \<lparr>String = ''2'', Valid = True\<rparr>]) \<noteq> 2
   \<and> [''id'' \<mapsto> \<lparr>String = ''2'', Valid = True\<rparr>] ([''id'', ''id''] ! 0)
       \<noteq> Some ([\<lparr>String = ''1'', Valid = True\<rparr>, \<lparr>String = ''2'', Valid = True\<rparr>] ! 0)"
  by (simp add: rowToMap_def)

text \<open>
  Claim C6, amended: for every row of \<open>N\<close> cells and every sequence of \<open>N\<close> pairwise
  different column names, \<^verbatim>\<open>rowToMap\<close> returns a map with exactly \<open>N\<close> keys, and for
  each index \<open>i\<close> the cell under the \<open>i\<close>-th name is the \<open>i\<close>-th cell of the row.
\<close>

theorem rowToMap_distinct_columns:
  assumes "length row = length columns" and "distinct columns"
  shows "\<exists>m. rowToMap row columns = Inr m
           \<and> card (dom m) = length row
           \<and> (\<forall>i < length row. m (columns ! i) = Some (row ! i))"
proof -
  let ?m = "map_of (zip columns row)"
  have "distinct (map fst (zip columns row))"
    using assms by simp
  then have "rowToMap row columns = Inr ?m"
    using assms(1) by (simp add: rowToMap_map_of map_of_rev_distinct)
  moreover have "card (dom ?m) = length row"
    using assms by (simp add: dom_map_of_zip distinct_card)
  moreover have "\<forall>i < length row. ?m (columns ! i) = Some (row ! i)"
    using assms by (simp add: map_of_zip_nth)
  ultimately show ?thesis by blast
qed

theorem rowToMap_distinct_columns_witness:
  "length [\<lparr>String = ''1'', Valid = True\<rparr>, \<lparr>String = [], Valid = False\<rparr>] = length [''id'', ''name'']
   \<and> distinct [''id'', ''name'']
   \<and> (\<exists>m. rowToMap [\<lparr>String = ''1'', Valid = True\<rparr>, \<lparr>String = [], Valid = False\<rparr>] [''id'', ''name''] = Inr m
          \<and> card (dom m) = length [\<lparr>String = ''1'', Valid = True\<rparr>, \<lparr>String = [], Valid = False\<rparr>]
          \<and> (\<forall>i < length [\<lparr>String = ''1'', Valid = True\<rparr>, \<lparr>String = [], Valid = False\<rparr>].
                m ([''id'', ''name''] ! i)
                  = Some ([\<lparr>String = ''1'', Valid = True\<rparr>, \<lparr>String = [], Valid = False\<rparr>] ! i)))"
proof -
  have l: "length [\<lparr>String = ''1'', Valid = True\<rparr>, \<lparr>String = [], Valid = False\<rparr>] = length [''id'', ''name'']"
    by simp
  have d: "distinct [''id'', ''name'']"
    by simp
  show ?thesis
    by (intro conjI l d rowToMap_distinct_columns [OF l d])
qed

subsection \<open>Unsigned getters\<close>

text \<open>What holds of the getters that parse with \<^verbatim>\<open>ParseUint\<close>: a text with a byte that
  is not a digit, the empty text of an absent cell or of a missing key included, gives zero
  or the default; digits that overflow give the default from \<^verbatim>\<open>GetUint64D\<close>, and from
  \<^verbatim>\<open>GetUint\<close> and \<^verbatim>\<open>GetUint64\<close> the largest value, which \<^verbatim>\<open>ParseUint\<close>
  returns beside its range error.\<close>

lemma GetUint64D_default_or_parsed:
  "GetUint64D this key def =
     (if snd (ParseUint (GetString this key)) = None then fst (ParseUint (GetString this key))
      else def)"
  by (simp add: GetUint64D_def split: prod.splits)

lemma GetUint_eq_GetUint64: "GetUint this key = GetUint64 this key"
  by (simp add: GetUint_def GetUint64_def)

lemma GetUint_missing_key: "this key = None \<Longrightarrow> GetUint this key = 0"
  by (simp add: GetUint_def GetString_def ParseUint_def zero_CellData_def)

lemma GetUint_overflow_text:
  "GetUint [''n'' \<mapsto> \<lparr>String = ''18446744073709551616'', Valid = True\<rparr>] ''n''
     = 18446744073709551615"
  by (simp add: GetUint_def GetString_def ParseUint_def cutoff_u64_def maxVal_u64_def
      word_le_def word_less_def)

text \<open>
  Claim C7: the unsigned getters return the value of parsing the text as an unsigned
  integer, and zero or the default whenever that parse fails, a negative number
  included. The code at the text \<^verbatim>\<open>-5\<close> with default 7: the unsigned parse fails,
  \<^verbatim>\<open>GetUint64D\<close> returns the default, and \<^verbatim>\<open>GetUintD\<close>, which parses with
  \<^verbatim>\<open>Atoi\<close> and converts the signed result, returns \<open>2 ^ 64 - 5\<close>.
\<close>

theorem GetUintD_negative_text:
  "ParseUint ''-5'' = (0, Some ErrSyntax)
   \<and> GetUintD [''n'' \<mapsto> \<lparr>String = ''-5'', Valid = True\<rparr>] ''n'' 7 = 18446744073709551611
   \<and> GetUint64D [''n'' \<mapsto> \<lparr>String = ''-5'', Valid = True\<rparr>] ''n'' 7 = 7"
  by (simp add: GetUintD_def GetUint64D_def GetString_def Atoi_def ParseInt_def ParseUint_def
      cutoff_u64_def cutoff_i64_def maxVal_u64_def word_le_def word_less_def)

subsection \<open>The handle cache\<close>

lemma GetGenericDB_cached:
  "knownDBs st dsn = Some db \<Longrightarrow> GetGenericDB env d dsn st = ((Some db, True, None), st)"
  by (simp add: GetGenericDB_def)

lemma GetGenericDB_open_fails:
  "knownDBs st dsn = None \<Longrightarrow> env d dsn = Some err \<Longrightarrow>
   GetGenericDB env d dsn st = ((None, False, Some err), st)"
  by (simp add: GetGenericDB_def sql_Open_def)

lemma GetGenericDB_opens:
  "knownDBs st dsn = None \<Longrightarrow> env d dsn = None \<Longrightarrow>
   GetGenericDB env d dsn st =
     ((Some \<lparr>db_id = length (opened st), db_driverName = d, db_dataSourceName = dsn\<rparr>, False, None),
      st\<lparr>opened := opened st @ [\<lparr>db_id = length (opened st), db_driverName = d, db_dataSourceName = dsn\<rparr>],
         knownDBs := (knownDBs st)(dsn \<mapsto> \<lparr>db_id = length (opened st), db_driverName = d, db_dataSourceName = dsn\<rparr>)\<rparr>)"
  by (simp add: GetGenericDB_def sql_Open_def Let_def)

lemma GetGenericDB_cases:
  obtains (cached) db where "knownDBs st dsn = Some db"
      "GetGenericDB env d dsn st = ((Some db, True, None), st)"
  | (fails) err where "knownDBs st dsn = None" "env d dsn = Some err"
      "GetGenericDB env d dsn st = ((None, False, Some err), st)"
  | (opens) "knownDBs st dsn = None" "env d dsn = None"
      "GetGenericDB env d dsn st =
        ((Some \<lparr>db_id = length (opened st), db_driverName = d, db_dataSourceName = dsn\<rparr>, False, None),
         st\<lparr>opened := opened st @ [\<lparr>db_id = length (opened st), db_driverName = d, db_dataSourceName = dsn\<rparr>],
            knownDBs := (knownDBs st)(dsn \<mapsto> \<lparr>db_id = length (opened st), db_driverName = d, db_dataSourceName = dsn\<rparr>)\<rparr>)"
proof (cases "knownDBs st dsn")
  case (Some db)
  then show ?thesis using cached GetGenericDB_cached by blast
next
  case None
  show ?thesis
  proof (cases "env d dsn")
    case (Some err)
    then show ?thesis using None fails GetGenericDB_open_fails by blast
  next
    case N2: None
    then show ?thesis using None opens GetGenericDB_opens by blast
  qed
qed

lemma GetGenericDB_keeps:
  "knownDBs st k = Some db \<Longrightarrow> knownDBs (snd (GetGenericDB env d dsn st)) k = Some db"
  by (cases rule: GetGenericDB_cases [of st dsn env d]) auto

lemma GetGenericDB_calls_keep:
  "knownDBs st k = Some db \<Longrightarrow> knownDBs (GetGenericDB_calls env calls st) k = Some db"
  by (induction calls arbitrary: st) (auto simp: GetGenericDB_keeps)

lemma dbs_inv_init: "dbs_inv init_dbs"
  by (simp add: dbs_inv_def init_dbs_def)

lemma dbs_inv_GetGenericDB:
  assumes "dbs_inv st"
  shows "dbs_inv (snd (GetGenericDB env d dsn st))"
proof (cases rule: GetGenericDB_cases [of st dsn env d])
  case (cached db)
  then show ?thesis using assms by simp
next
  case (fails err)
  then show ?thesis using assms by simp
next
  case opens
  let ?db = "\<lparr>db_id = length (opened st), db_driverName = d, db_dataSourceName = dsn\<rparr>"
  let ?st = "st\<lparr>opened := opened st @ [?db], knownDBs := (knownDBs st)(dsn \<mapsto> ?db)\<rparr>"
  have i1: "distinct (map db_dataSourceName (opened st))"
    and i2: "\<And>db. db \<in> set (opened st) \<Longrightarrow> knownDBs st (db_dataSourceName db) = Some db"
    and i3: "\<And>k db. knownDBs st k = Some db \<Longrightarrow> db \<in> set (opened st) \<and> db_dataSourceName db = k"
    using assms by (simp_all add: dbs_inv_def)
  have new: "dsn \<notin> db_dataSourceName ` set (opened st)"
  proof
    assume "dsn \<in> db_dataSourceName ` set (opened st)"
    then obtain x where "x \<in> set (opened st)" "db_dataSourceName x = dsn" by auto
    then have "knownDBs st dsn = Some x" using i2 by blast
    then show False using opens(1) by simp
  qed
  have "distinct (map db_dataSourceName (opened ?st))"
    using i1 new by simp
  moreover have "\<forall>db \<in> set (opened ?st). knownDBs ?st (db_dataSourceName db) = Some db"
  proof
    fix x assume "x \<in> set (opened ?st)"
    then consider "x = ?db" | "x \<in> set (opened st)" by auto
    then show "knownDBs ?st (db_dataSourceName x) = Some x"
    proof cases
      case 1
      then show ?thesis by simp
    next
      case 2
      then have "db_dataSourceName x \<noteq> dsn" using new by blast
      then show ?thesis using i2 [OF 2] by simp
    qed
  qed
  moreover have "\<forall>k db. knownDBs ?st k = Some db \<longrightarrow> db \<in> set (opened ?st) \<and> db_dataSourceName db = k"
  proof (intro allI impI)
    fix k x assume h: "knownDBs ?st k = Some x"
    show "x \<in> set (opened ?st) \<and> db_dataSourceName x = k"
    proof (cases "k = dsn")
      case True
      then have "x = ?db" using h by simp
      then show ?thesis using True by simp
    next
      case False
      then have "knownDBs st k = Some x" using h by simp
      then show ?thesis using i3 by simp
    qed
  qed
  ultimately have "dbs_inv ?st"
    unfolding dbs_inv_def by blast
  then show ?thesis
    using opens(3) by simp
qed

lemma dbs_inv_calls: "dbs_inv st \<Longrightarrow> dbs_inv (GetGenericDB_calls env calls st)"
  by (induction calls arbitrary: st) (auto simp: dbs_inv_GetGenericDB)

lemma distinct_map_filter_le1:
  "distinct (map f xs) \<Longrightarrow> length (filter (\<lambda>x. f x = k) xs) \<le> 1"
proof (induction xs)
  case Nil
  then show ?case by simp
next
  case (Cons x xs)
  show ?case
  proof (cases "f x = k")
    case True
    then have "k \<notin> f ` set xs" using Cons.prems by auto
    then have "filter (\<lambda>x. f x = k) xs = []" by (auto simp: filter_empty_conv)
    then show ?thesis using True by simp
  next
    case False
    then show ?thesis using Cons by simp
  qed
qed

lemma fresh_handle:
  "dbs_inv st \<Longrightarrow> knownDBs st dsn = None \<Longrightarrow>
   \<lparr>db_id = n, db_driverName = d, db_dataSourceName = dsn\<rparr> \<notin> set (opened st)"
  by (auto simp: dbs_inv_def)

text \<open>
  Claim C3: the cache creates at most one handle per data source name and only grows.
  In a state \<open>st\<close> reached from the empty cache by any list of calls: no two handles
  opened so far have the same name; a call for a name that is not cached and that
  \<^verbatim>\<open>sql.Open\<close> accepts opens one new handle, stores it and reports \<open>False\<close>; for a
  name that is cached, a call after any further calls, with any driver name, returns the
  stored handle, reports \<open>True\<close> and changes nothing, so opens nothing; and no call
  removes or replaces an entry.
\<close>

theorem GetGenericDB_one_handle_per_identity:
  assumes "st = GetGenericDB_calls env calls init_dbs"
  shows "(\<forall>dsn. length (filter (\<lambda>db. db_dataSourceName db = dsn) (opened st)) \<le> 1)
   \<and> (knownDBs st dataSourceName = None \<and> env driverName dataSourceName = None \<longrightarrow>
        (\<exists>db. db \<notin> set (opened st)
           \<and> GetGenericDB env driverName dataSourceName st
               = ((Some db, False, None),
                  st\<lparr>opened := opened st @ [db],
                     knownDBs := (knownDBs st)(dataSourceName \<mapsto> db)\<rparr>)))
   \<and> (\<forall>db. knownDBs st cachedName = Some db \<longrightarrow>
         GetGenericDB env driverName' cachedName (GetGenericDB_calls env later st)
           = ((Some db, True, None), GetGenericDB_calls env later st))
   \<and> (\<forall>k db. knownDBs st k = Some db \<longrightarrow>
         knownDBs (snd (GetGenericDB env driverName dataSourceName st)) k = Some db)"
proof (intro conjI allI impI)
  fix dsn
  have "dbs_inv st"
    unfolding assms by (rule dbs_inv_calls [OF dbs_inv_init])
  then show "length (filter (\<lambda>db. db_dataSourceName db = dsn) (opened st)) \<le> 1"
    using distinct_map_filter_le1 [of db_dataSourceName "opened st" dsn]
    by (simp add: dbs_inv_def)
next
  assume a: "knownDBs st dataSourceName = None \<and> env driverName dataSourceName = None"
  let ?db = "\<lparr>db_id = length (opened st), db_driverName = driverName,
               db_dataSourceName = dataSourceName\<rparr>"
  have "dbs_inv st"
    unfolding assms by (rule dbs_inv_calls [OF dbs_inv_init])
  then have "?db \<notin> set (opened st)"
    using a fresh_handle by blast
  moreover have "GetGenericDB env driverName dataSourceName st
              = ((Some ?db, False, None),
                 st\<lparr>opened := opened st @ [?db], knownDBs := (knownDBs st)(dataSourceName \<mapsto> ?db)\<rparr>)"
    using a by (simp add: GetGenericDB_opens)
  ultimately show "\<exists>db. db \<notin> set (opened st)
           \<and> GetGenericDB env driverName dataSourceName st
               = ((Some db, False, None),
                  st\<lparr>opened := opened st @ [db],
                     knownDBs := (knownDBs st)(dataSourceName \<mapsto> db)\<rparr>)"
    by blast
next
  fix db
  assume "knownDBs st cachedName = Some db"
  then show "GetGenericDB env driverName' cachedName (GetGenericDB_calls env later st)
           = ((Some db, True, None), GetGenericDB_calls env later st)"
    by (simp add: GetGenericDB_cached GetGenericDB_calls_keep)
next
  fix k db
  assume "knownDBs st k = Some db"
  then show "knownDBs (snd (GetGenericDB env driverName dataSourceName st)) k = Some db"
    by (rule GetGenericDB_keeps)
qed

theorem GetGenericDB_one_handle_per_identity_witness:
  "knownDBs (GetGenericDB_calls (\<lambda>d n. None) [(''mysql'', ''a'')] init_dbs) ''b'' = None
   \<and> knownDBs (GetGenericDB_calls (\<lambda>d n. None) [(''mysql'', ''a'')] init_dbs) ''a''
       = Some \<lparr>db_id = 0, db_driverName = ''mysql'', db_dataSourceName = ''a''\<rparr>
   \<and> length (filter (\<lambda>db. db_dataSourceName db = ''a'')
        (opened (GetGenericDB_calls (\<lambda>d n. None) [(''mysql'', ''a'')] init_dbs))) \<le> 1
   \<and> fst (GetGenericDB (\<lambda>d n. None) ''mysql'' ''b''
        (GetGenericDB_calls (\<lambda>d n. None) [(''mysql'', ''a'')] init_dbs))
       = (Some \<lparr>db_id = 1, db_driverName = ''mysql'', db_dataSourceName = ''b''\<rparr>, False, None)
   \<and> fst (GetGenericDB (\<lambda>d n. None) ''mysql'' ''a''
        (GetGenericDB_calls (\<lambda>d n. None) [(''mysql'', ''b'')]
           (GetGenericDB_calls (\<lambda>d n. None) [(''mysql'', ''a'')] init_dbs)))
       = (Some \<lparr>db_id = 0, db_driverName = ''mysql'', db_dataSourceName = ''a''\<rparr>, True, None)"
  using GetGenericDB_one_handle_per_identity
    [of "GetGenericDB_calls (\<lambda>d n. None) [(''mysql'', ''a'')] init_dbs" "\<lambda>d n. None"
        "[(''mysql'', ''a'')]" "''b''" "''mysql''" "''a''" "''mysql''" "[(''mysql'', ''b'')]"]
  by (simp add: GetGenericDB_def sql_Open_def init_dbs_def Let_def)

text \<open>
  Claim C9: the cache is keyed by the data source name alone. When a call with one
  driver name has opened the handle for a name, a later call for that name with any other
  driver name returns that handle, opened with the first driver, reports \<open>True\<close> and
  leaves the state as it was, so it opens nothing.
\<close>

theorem GetGenericDB_ignores_driver:
  assumes "GetGenericDB env driverName dataSourceName st = ((Some db, False, None), st1)"
  shows "db_driverName db = driverName
         \<and> GetGenericDB env driverName' dataSourceName (GetGenericDB_calls env calls st1)
             = ((Some db, True, None), GetGenericDB_calls env calls st1)"
proof (cases rule: GetGenericDB_cases [of st dataSourceName env driverName])
  case (cached db')
  then show ?thesis using assms by simp
next
  case (fails err)
  then show ?thesis using assms by simp
next
  case opens
  then have "db_driverName db = driverName" and "knownDBs st1 dataSourceName = Some db"
    using assms by auto
  then show ?thesis
    by (simp add: GetGenericDB_cached GetGenericDB_calls_keep)
qed

theorem GetGenericDB_ignores_driver_witness:
  "GetGenericDB (\<lambda>d n. None) ''mysql'' ''a'' init_dbs
     = ((Some \<lparr>db_id = 0, db_driverName = ''mysql'', db_dataSourceName = ''a''\<rparr>, False, None),
        \<lparr>knownDBs = [''a'' \<mapsto> \<lparr>db_id = 0, db_driverName = ''mysql'', db_dataSourceName = ''a''\<rparr>],
         opened = [\<lparr>db_id = 0, db_driverName = ''mysql'', db_dataSourceName = ''a''\<rparr>]\<rparr>)
   \<and> fst (GetSQLiteDB (\<lambda>d n. None) ''a''
         (GetGenericDB_calls (\<lambda>d n. None) [(''sqlite3'', ''b'')]
            (snd (GetDB (\<lambda>d n. None) ''a'' init_dbs))))
       = (Some \<lparr>db_id = 0, db_driverName = ''mysql'', db_dataSourceName = ''a''\<rparr>, True, None)"
proof -
  have h: "GetGenericDB (\<lambda>d n. None) ''mysql'' ''a'' init_dbs
     = ((Some \<lparr>db_id = 0, db_driverName = ''mysql'', db_dataSourceName = ''a''\<rparr>, False, None),
        \<lparr>knownDBs = [''a'' \<mapsto> \<lparr>db_id = 0, db_driverName = ''mysql'', db_dataSourceName = ''a''\<rparr>],
         opened = [\<lparr>db_id = 0, db_driverName = ''mysql'', db_dataSourceName = ''a''\<rparr>]\<rparr>)"
    by (simp add: GetGenericDB_def sql_Open_def init_dbs_def Let_def)
  show ?thesis
    using h GetGenericDB_ignores_driver [OF h, of "''sqlite3''" "[(''sqlite3'', ''b'')]"]
    by (simp add: GetDB_def GetSQLiteDB_def)
qed

subsection \<open>Scanning\<close>

lemma Rows_Scan_fails:
  "snd (Rows_Scan r dest) \<noteq> None \<Longrightarrow> fst (Rows_Scan r dest) = dest"
  by (simp add: Rows_Scan_def split: if_splits)

lemma length_RowToArray: "length (RowToArray r columns) = length columns"
  by (simp add: RowToArray_def Rows_Scan_def Let_def)

lemma RowToArray_fst:
  "RowToArray r columns = fst (Rows_Scan r (replicate (length columns) zero_CellData))"
  by (simp add: RowToArray_def Let_def split: prod.splits)

lemma RowToArray_scan_fails:
  "snd (Rows_Scan r (replicate (length columns) zero_CellData)) \<noteq> None \<Longrightarrow>
   RowToArray r columns = replicate (length columns) zero_CellData"
  by (simp add: RowToArray_fst Rows_Scan_fails)

lemma RowToArray_scan_ok:
  "snd (Rows_Scan r (replicate (length columns) zero_CellData)) = None \<Longrightarrow>
   RowToArray r columns = map NullString_Scan (lastcols r)"
  by (simp add: RowToArray_fst Rows_Scan_def split: if_splits)

lemma ScanRowsToArrays_loop_record:
  "ScanRowsToArrays_loop columns rs record_RowData seen
     = (seen @ map (\<lambda>r. RowToArray r columns) rs, Inr None)"
  by (induction rs arbitrary: seen) (simp_all add: record_RowData_def)


lemma ScanRowsToArrays_loop_error_from_sink:
  "ScanRowsToArrays_loop columns rs on_row s = (s', Inr (Some err)) \<Longrightarrow>
   \<exists>r \<in> set rs. \<exists>s0. on_row (RowToArray r columns) s0 = (s', Inr (Some err))"
proof (induction rs arbitrary: s)
  case Nil
  then show ?case by simp
next
  case (Cons r rs)
  obtain s1 x where o: "on_row (RowToArray r columns) s = (s1, x)"
    by (cases "on_row (RowToArray r columns) s")
  show ?case
  proof (cases x)
    case (Inl p)
    then show ?thesis using Cons.prems o by simp
  next
    case (Inr e)
    show ?thesis
    proof (cases e)
      case None
      then have "ScanRowsToArrays_loop columns rs on_row s1 = (s', Inr (Some err))"
        using Cons.prems o Inr by simp
      then show ?thesis using Cons.IH by auto
    next
      case (Some e')
      then have "on_row (RowToArray r columns) s = (s', Inr (Some err))"
        using Cons.prems o Inr by simp
      then show ?thesis by auto
    qed
  qed
qed

lemma streaming_loop_eq_buffered_loop:
  "ScanRowsToArrays_loop columns rs
     (\<lambda>arr s. case rowToMap arr columns' of
                 Inl p \<Rightarrow> (s, Inl p)
               | Inr m \<Rightarrow> (case on_row m s of (s', err) \<Rightarrow> (s', Inr err))) s
   = QueryRowsMapBuffered_loop columns' (map (\<lambda>r. RowToArray r columns) rs) on_row s"
proof (induction rs arbitrary: s)
  case Nil
  then show ?case by simp
next
  case (Cons r rs)
  show ?case
  proof (cases "rowToMap (RowToArray r columns) columns'")
    case (Inl p)
    then show ?thesis by simp
  next
    case (Inr m)
    obtain s1 e where o: "on_row m s = (s1, e)" by (cases "on_row m s")
    show ?thesis
      using Inr o Cons.IH by (cases e) simp_all
  qed
qed

lemma QueryRowsMapBuffered_loop_record:
  "\<forall>row \<in> set resultData. length row \<le> length columns \<Longrightarrow>
   QueryRowsMapBuffered_loop columns resultData record_RowMap seen
     = (seen @ map (\<lambda>row. map_of (rev (zip columns row))) resultData, Inr None)"
  by (induction resultData arbitrary: seen) (simp_all add: rowToMap_map_of record_RowMap_def)

lemma ScanRowsToMaps_Some:
  "ScanRowsToMaps (Some rows) on_row s =
     QueryRowsMapBuffered_loop (fst (Columns_result rows))
       (map (\<lambda>r. RowToArray r (fst (Columns_result rows))) (pending rows)) on_row s"
  by (simp add: ScanRowsToMaps_def ScanRowsToArrays_def Rows_Columns_def
      streaming_loop_eq_buffered_loop split: prod.splits)








lemma QueryRowsMapBuffered_loop_error_from_sink:
  "QueryRowsMapBuffered_loop columns resultData on_row s = (s', Inr (Some err)) \<Longrightarrow>
   \<exists>m s0. on_row m s0 = (s', Some err)"
proof (induction resultData arbitrary: s)
  case Nil
  then show ?case by simp
next
  case (Cons row resultData)
  show ?case
  proof (cases "rowToMap row columns")
    case (Inl p)
    then show ?thesis using Cons.prems by simp
  next
    case (Inr m)
    obtain s1 e where o: "on_row m s = (s1, e)" by (cases "on_row m s")
    show ?thesis
    proof (cases e)
      case None
      then show ?thesis using Cons Inr o by simp
    next
      case (Some e')
      then have "on_row m s = (s', Some err)" using Cons.prems Inr o by simp
      then show ?thesis by blast
    qed
  qed
qed

lemma QueryRowsMapBuffered_loop_no_panic:
  "\<forall>row \<in> set resultData. length row \<le> length columns \<Longrightarrow>
   snd (QueryRowsMapBuffered_loop columns resultData on_row s) \<noteq> Inl p"
proof (induction resultData arbitrary: s)
  case Nil
  then show ?case by simp
next
  case (Cons row resultData)
  obtain s1 e where o: "on_row (map_of (rev (zip columns row))) s = (s1, e)"
    by (cases "on_row (map_of (rev (zip columns row))) s")
  show ?case
    using Cons o by (cases e) (simp_all add: rowToMap_map_of)
qed

text \<open>
  Claim C10: scanning never reports a scan error or a column retrieval error. A record
  whose \<^verbatim>\<open>rows.Scan\<close> fails comes out of \<^verbatim>\<open>RowToArray\<close> as a row of
  \<^verbatim>\<open>len(columns)\<close> absent cells; \<^verbatim>\<open>ScanRowsToArrays\<close> and \<^verbatim>\<open>ScanRowsToMaps\<close>
  hand every record of the cursor to a callback that does not fail and return no error,
  whatever error \<^verbatim>\<open>Columns()\<close> returned and whichever scans failed; and an error
  either of them returns is one the callback returned.
\<close>

theorem scanning_never_reports_scan_or_column_errors:
  "(snd (Rows_Scan r (replicate (length columns) zero_CellData)) \<noteq> None \<longrightarrow>
      RowToArray r columns = replicate (length columns) zero_CellData)
   \<and> ScanRowsToArrays (Some rows) record_RowData seen
       = (seen @ map (\<lambda>r. RowToArray r (fst (Columns_result rows))) (pending rows), Inr None)
   \<and> ScanRowsToMaps (Some rows) record_RowMap seen'
       = (seen' @ map (\<lambda>r. map_of (rev (zip (fst (Columns_result rows))
                                   (RowToArray r (fst (Columns_result rows))))))
                    (pending rows), Inr None)
   \<and> (ScanRowsToArrays (Some rows) on_row s = (s', Inr (Some err)) \<longrightarrow>
        (\<exists>r \<in> set (pending rows). \<exists>s0.
            on_row (RowToArray r (fst (Columns_result rows))) s0 = (s', Inr (Some err))))
   \<and> (ScanRowsToMaps (Some rows) on_map t = (t', Inr (Some err')) \<longrightarrow>
        (\<exists>m t0. on_map m t0 = (t', Some err')))
   \<and> snd (ScanRowsToMaps (Some rows) on_map t) \<noteq> Inl p"
proof (intro conjI impI)
  assume "snd (Rows_Scan r (replicate (length columns) zero_CellData)) \<noteq> None"
  then show "RowToArray r columns = replicate (length columns) zero_CellData"
    by (rule RowToArray_scan_fails)
next
  show "ScanRowsToArrays (Some rows) record_RowData seen
       = (seen @ map (\<lambda>r. RowToArray r (fst (Columns_result rows))) (pending rows), Inr None)"
    by (simp add: ScanRowsToArrays_def Rows_Columns_def ScanRowsToArrays_loop_record
        split: prod.splits)
next
  show "ScanRowsToMaps (Some rows) record_RowMap seen'
       = (seen' @ map (\<lambda>r. map_of (rev (zip (fst (Columns_result rows))
                                   (RowToArray r (fst (Columns_result rows))))))
                    (pending rows), Inr None)"
    by (simp add: ScanRowsToMaps_Some QueryRowsMapBuffered_loop_record length_RowToArray
        comp_def)
next
  assume "ScanRowsToArrays (Some rows) on_row s = (s', Inr (Some err))"
  then have "ScanRowsToArrays_loop (fst (Columns_result rows)) (pending rows) on_row s
               = (s', Inr (Some err))"
    by (simp add: ScanRowsToArrays_def Rows_Columns_def split: prod.splits)
  then show "\<exists>r \<in> set (pending rows). \<exists>s0.
            on_row (RowToArray r (fst (Columns_result rows))) s0 = (s', Inr (Some err))"
    by (rule ScanRowsToArrays_loop_error_from_sink)
next
  assume "ScanRowsToMaps (Some rows) on_map t = (t', Inr (Some err'))"
  then show "\<exists>m t0. on_map m t0 = (t', Some err')"
    unfolding ScanRowsToMaps_Some by (rule QueryRowsMapBuffered_loop_error_from_sink)
next
  show "snd (ScanRowsToMaps (Some rows) on_map t) \<noteq> Inl p"
    unfolding ScanRowsToMaps_Some
    by (rule QueryRowsMapBuffered_loop_no_panic) (simp add: length_RowToArray)
qed

theorem scanning_never_reports_scan_or_column_errors_witness:
  "snd (Rows_Scan \<lparr>lastcols = [Some ''2'', Some ''b''], closed = True\<rparr>
          (replicate (length [''id'', ''name'']) zero_CellData)) \<noteq> None
   \<and> RowToArray \<lparr>lastcols = [Some ''2'', Some ''b''], closed = True\<rparr> [''id'', ''name'']
       = [\<lparr>String = [], Valid = False\<rparr>, \<lparr>String = [], Valid = False\<rparr>]
   \<and> ScanRowsToArrays
        (Some \<lparr>Columns_result = ([''id'', ''name''], Some (Error ''columns'')),
               pending = [\<lparr>lastcols = [Some ''1'', None], closed = False\<rparr>,
                          \<lparr>lastcols = [Some ''2'', Some ''b''], closed = True\<rparr>]\<rparr>)
        record_RowData []
       = ([[\<lparr>String = ''1'', Valid = True\<rparr>, \<lparr>String = [], Valid = False\<rparr>],
           [\<lparr>String = [], Valid = False\<rparr>, \<lparr>String = [], Valid = False\<rparr>]], Inr None)
   \<and> ScanRowsToArrays
        (Some \<lparr>Columns_result = ([''id'', ''name''], Some (Error ''columns'')),
               pending = [\<lparr>lastcols = [Some ''1'', None], closed = False\<rparr>,
                          \<lparr>lastcols = [Some ''2'', Some ''b''], closed = True\<rparr>]\<rparr>)
        (\<lambda>arr n. (Suc n, Inr (if n = 1 then Some (Error ''stop'') else None))) (0::nat)
       = (2, Inr (Some (Error ''stop'')))
   \<and> ScanRowsToMaps
        (Some \<lparr>Columns_result = ([''id'', ''name''], Some (Error ''columns'')),
               pending = [\<lparr>lastcols = [Some ''1'', None], closed = False\<rparr>,
                          \<lparr>lastcols = [Some ''2'', Some ''b''], closed = True\<rparr>]\<rparr>)
        (\<lambda>m n. (Suc n, if n = 1 then Some (Error ''stop'') else None)) (0::nat)
       = (2, Inr (Some (Error ''stop'')))"
  using scanning_never_reports_scan_or_column_errors
    [of "\<lparr>lastcols = [Some ''2'', Some ''b''], closed = True\<rparr>" "[''id'', ''name'']"
        "\<lparr>Columns_result = ([''id'', ''name''], Some (Error ''columns'')),
               pending = [\<lparr>lastcols = [Some ''1'', None], closed = False\<rparr>,
                          \<lparr>lastcols = [Some ''2'', Some ''b''], closed = True\<rparr>]\<rparr>"
        "[]" "[]"
        "\<lambda>arr n. (Suc n, Inr (if n = 1 then Some (Error ''stop'') else None))" "0::nat" 2
        "Error ''stop''"
        "\<lambda>m n. (Suc n, if n = 1 then Some (Error ''stop'') else None)" "0::nat" 2
        "Error ''stop''" NilPointerDereference]
  by (simp add: Rows_Scan_def RowToArray_def ScanRowsToArrays_def ScanRowsToMaps_def
      Rows_Columns_def record_RowData_def zero_CellData_def rowToMap_def Let_def)

subsection \<open>The three query strategies\<close>




text \<open>
  Claim C5: when the driver's query call fails with an error other than
  \<^verbatim>\<open>sql.ErrNoRows\<close>, each strategy calls no callback and returns that error. The code
  at a database that answers with no cursor and the error \<^verbatim>\<open>connection refused\<close>:
  the bulk strategy's deferred \<^verbatim>\<open>rows.Close()\<close> runs on the nil cursor and panics, and
  the error returned is the one built from the panic; the buffered strategy returns the
  same; the streaming strategy, which defers \<^verbatim>\<open>rows.Close()\<close> only for a cursor that
  is not nil, logs and returns the driver's error.
\<close>

theorem queryResultDataContext_converts_query_failure:
  "queryResultDataContext (\<lambda>query args. (None, Some (Error ''connection refused'')))
      ''select 1'' False ([] :: unit list)
     = ([], [], Some (Unexpected ''queryResultDataContext'' NilPointerDereference))
   \<and> QueryRowsMapBufferedContext (\<lambda>query args. (None, Some (Error ''connection refused'')))
      ''select 1'' record_RowMap ([] :: unit list) []
     = ([], Inr (Some (Unexpected ''queryResultDataContext'' NilPointerDereference)))
   \<and> QueryRowsMapContext (\<lambda>query args. (None, Some (Error ''connection refused'')))
      ''select 1'' record_RowMap ([] :: unit list) []
     = ([], [Error ''connection refused''], Some (Error ''connection refused''))"
  by (simp add: queryResultDataContext_def QueryRowsMapBufferedContext_def QueryRowsMapContext_def
      Rows_Close_def EmptyResultData_def log_Errore_def)

lemma zero_rows_is_success:
  "db query args = (Some \<lparr>Columns_result = (columns, None), pending = []\<rparr>, None) \<Longrightarrow>
   QueryRowsMapContext db query on_row args s = (s, [], None)
   \<and> QueryRowsMapBufferedContext db query on_row args s = (s, Inr None)
   \<and> queryResultDataContext db query True args = ([], columns, None)"
  by (simp add: queryResultDataContext_def QueryRowsMapBufferedContext_def QueryRowsMapContext_def
      ScanRowsToMaps_def ScanRowsToArrays_def Rows_Columns_def Rows_Close_def)

subsection \<open>Prepared execution\<close>

lemma execInternalContext_releases_statement:
  "prepared w \<notin> set (open_stmts w) \<Longrightarrow>
   open_stmts (snd (execInternalContext prepare_fails stmt_exec silent query args w)) = open_stmts w"
  by (auto simp: execInternalContext_def PrepareContext_def Stmt_Close_def log_Errore_def Let_def
      split: option.splits sum.splits prod.splits)

lemma execInternalContext_logs_exec_failure:
  "prepare_fails query = None \<Longrightarrow> stmt_exec query args = Inr (res, Some err) \<Longrightarrow>
   execInternalContext prepare_fails stmt_exec silent query args w
     = ((res, Some err),
        w\<lparr>prepared := Suc (prepared w),
          open_stmts := removeAll (prepared w) (prepared w # open_stmts w),
          logged := (if silent then logged w else logged w @ [err])\<rparr>)"
  by (simp add: execInternalContext_def PrepareContext_def Stmt_Close_def log_Errore_def)

text \<open>
  Claim C8: \<^verbatim>\<open>execInternalContext\<close> closes the statement on every path that prepared
  one, and with \<open>silent\<close> false every failure it returns, of the prepare step or of the
  execution, has been logged. The code at a database whose prepare step fails, with
  \<open>silent\<close> false: the error is returned and nothing is logged, while a failure of the
  execution is logged.
\<close>

theorem execInternalContext_prepare_failure_not_logged:
  "execInternalContext (\<lambda>query. Some (Error ''prepare failed''))
      (\<lambda>query args. Inr (Some (Result 0 1), None)) False ''delete from t'' ([] :: unit list)
      \<lparr>open_stmts = [], prepared = 0, logged = []\<rparr>
     = ((None, Some (Error ''prepare failed'')), \<lparr>open_stmts = [], prepared = 0, logged = []\<rparr>)
   \<and> execInternalContext (\<lambda>query. None)
      (\<lambda>query args. Inr (None, Some (Error ''exec failed''))) False ''delete from t'' ([] :: unit list)
      \<lparr>open_stmts = [], prepared = 0, logged = []\<rparr>
     = ((None, Some (Error ''exec failed'')),
        \<lparr>open_stmts = [], prepared = 1, logged = [Error ''exec failed'']\<rparr>)"
  by (simp add: execInternalContext_def PrepareContext_def Stmt_Close_def log_Errore_def)

subsection \<open>Writing a table back\<close>

lemma WriteTable_loop_eq:
  "WriteTable_loop exec_fails query rows db err =
     (db @ map (\<lambda>rowData. (query, Args rowData)) rows,
      case last_failure (outcomes exec_fails db (map (\<lambda>rowData. (query, Args rowData)) rows)) of
        Some e \<Rightarrow> Some e | None \<Rightarrow> err)"
proof (induction rows arbitrary: db err)
  case Nil
  then show ?case by simp
next
  case (Cons rowData rows)
  show ?case
  proof (cases "exec_fails db query (Args rowData)")
    case None
    then show ?thesis
      by (simp add: DB_ExecContext_def Cons.IH split: option.splits)
  next
    case (Some execErr)
    then show ?thesis
      by (simp add: DB_ExecContext_def Cons.IH split: option.splits)
  qed
qed

text \<open>
  Claim C4: with no rows or no columns \<^verbatim>\<open>WriteTableContext\<close> executes nothing and
  returns no error. Otherwise it executes the one \<^verbatim>\<open>replace into\<close> query once per
  row, for every row, in order, each with the row's cells as arguments, whether or not
  earlier executions failed, and returns the error of the last execution that failed, or
  none when none failed.
\<close>

theorem WriteTableContext_attempts_every_row:
  "WriteTableContext exec_fails db tableName data =
     (if Data data = [] \<or> Columns data = [] then (db, None)
      else (db @ map (\<lambda>rowData. (replace_into tableName (Columns data), Args rowData)) (Data data),
            last_failure (outcomes exec_fails db
              (map (\<lambda>rowData. (replace_into tableName (Columns data), Args rowData)) (Data data)))))"
  by (simp add: WriteTableContext_def WriteTable_loop_eq split: option.splits)

theorem WriteTableContext_attempts_every_row_witness:
  "WriteTableContext (\<lambda>db query args. if length db = 1 then Some (Error ''row 2 failed'') else None) []
      ''t''
      \<lparr>Columns = [''id'', ''name''],
       Data = [[\<lparr>String = ''1'', Valid = True\<rparr>, \<lparr>String = ''a'', Valid = True\<rparr>],
               [\<lparr>String = ''2'', Valid = True\<rparr>, \<lparr>String = [], Valid = False\<rparr>],
               [\<lparr>String = ''3'', Valid = True\<rparr>, \<lparr>String = ''c'', Valid = True\<rparr>]]\<rparr>
   = ([(''replace into t (id,name) values (?,?)'', [\<lparr>String = ''1'', Valid = True\<rparr>, \<lparr>String = ''a'', Valid = True\<rparr>]),
       (''replace into t (id,name) values (?,?)'', [\<lparr>String = ''2'', Valid = True\<rparr>, \<lparr>String = [], Valid = False\<rparr>]),
       (''replace into t (id,name) values (?,?)'', [\<lparr>String = ''3'', Valid = True\<rparr>, \<lparr>String = ''c'', Valid = True\<rparr>])],
      Some (Error ''row 2 failed''))"
  using WriteTableContext_attempts_every_row
    [of "\<lambda>db query args. if length db = 1 then Some (Error ''row 2 failed'') else None" "[]" "''t''"
        "\<lparr>Columns = [''id'', ''name''],
       Data = [[\<lparr>String = ''1'', Valid = True\<rparr>, \<lparr>String = ''a'', Valid = True\<rparr>],
               [\<lparr>String = ''2'', Valid = True\<rparr>, \<lparr>String = [], Valid = False\<rparr>],
               [\<lparr>String = ''3'', Valid = True\<rparr>, \<lparr>String = ''c'', Valid = True\<rparr>]]\<rparr>"]
  by (simp add: replace_into_def Args_def)

end
